theory Spec2Isabelle
  imports Complex_Main "HOL-Library.Multiset"
begin

section \<open>Numbers and arrays of the numerical code\<close>

text \<open>
  The arrays of \<^verbatim>\<open>lstbin_simple.py\<close> hold IEEE floating-point numbers: a number is a
  finite value or one of the three special values. An arithmetic operation on finite
  operands returns the rounding of the exact result, which is a finite number or, on
  overflow, an infinity. The rounding function \<open>rnd\<close> is a parameter of every operation
  and of every function of the model, so that what is proved holds for every rounding,
  that of 64-bit floats included. The sign of zero is outside the model.
\<close>

datatype fl = Fin real | PInf | NInf | NaN

fun isnan :: "fl \<Rightarrow> bool" where
  "isnan NaN = True"
| "isnan _ = False"

fun isinf :: "fl \<Rightarrow> bool" where
  "isinf PInf = True"
| "isinf NInf = True"
| "isinf _ = False"

fun fl_neg :: "fl \<Rightarrow> fl" where
  "fl_neg (Fin a) = Fin (- a)"
| "fl_neg PInf = NInf"
| "fl_neg NInf = PInf"
| "fl_neg NaN = NaN"

fun fl_abs :: "fl \<Rightarrow> fl" where
  "fl_abs (Fin a) = Fin \<bar>a\<bar>"
| "fl_abs PInf = PInf"
| "fl_abs NInf = PInf"
| "fl_abs NaN = NaN"

fun fl_add :: "(real \<Rightarrow> fl) \<Rightarrow> fl \<Rightarrow> fl \<Rightarrow> fl" where
  "fl_add rnd NaN _ = NaN"
| "fl_add rnd _ NaN = NaN"
| "fl_add rnd PInf NInf = NaN"
| "fl_add rnd NInf PInf = NaN"
| "fl_add rnd PInf _ = PInf"
| "fl_add rnd _ PInf = PInf"
| "fl_add rnd NInf _ = NInf"
| "fl_add rnd _ NInf = NInf"
| "fl_add rnd (Fin a) (Fin b) = rnd (a + b)"

definition fl_sub :: "(real \<Rightarrow> fl) \<Rightarrow> fl \<Rightarrow> fl \<Rightarrow> fl" where
  "fl_sub rnd x y = fl_add rnd x (fl_neg y)"

text \<open>The sign of a number that is not NaN: \<open>-1\<close>, \<open>0\<close> or \<open>1\<close>.\<close>

fun fl_sgn :: "fl \<Rightarrow> int" where
  "fl_sgn (Fin a) = (if a < 0 then - 1 else if a = 0 then 0 else 1)"
| "fl_sgn PInf = 1"
| "fl_sgn NInf = - 1"
| "fl_sgn NaN = 0"

fun fl_mul :: "(real \<Rightarrow> fl) \<Rightarrow> fl \<Rightarrow> fl \<Rightarrow> fl" where
  "fl_mul rnd NaN _ = NaN"
| "fl_mul rnd _ NaN = NaN"
| "fl_mul rnd (Fin a) (Fin b) = rnd (a * b)"
| "fl_mul rnd x y =
     (if fl_sgn x * fl_sgn y = 0 then NaN
      else if fl_sgn x * fl_sgn y > 0 then PInf else NInf)"

fun fl_div :: "(real \<Rightarrow> fl) \<Rightarrow> fl \<Rightarrow> fl \<Rightarrow> fl" where
  "fl_div rnd NaN _ = NaN"
| "fl_div rnd _ NaN = NaN"
| "fl_div rnd (Fin a) (Fin b) =
     (if b = 0 then (if a = 0 then NaN else if a > 0 then PInf else NInf)
      else rnd (a / b))"
| "fl_div rnd (Fin a) _ = Fin 0"
| "fl_div rnd x (Fin b) = (if fl_sgn x * (if b < 0 then - 1 else 1) > 0 then PInf else NInf)"
| "fl_div rnd _ _ = NaN"

text \<open>Comparisons: every comparison with NaN is false.\<close>

fun fl_less :: "fl \<Rightarrow> fl \<Rightarrow> bool" where
  "fl_less NaN _ = False"
| "fl_less _ NaN = False"
| "fl_less (Fin a) (Fin b) = (a < b)"
| "fl_less PInf _ = False"
| "fl_less _ NInf = False"
| "fl_less _ PInf = True"
| "fl_less NInf _ = True"

fun fl_le :: "fl \<Rightarrow> fl \<Rightarrow> bool" where
  "fl_le NaN _ = False"
| "fl_le _ NaN = False"
| "fl_le x y = (x = y \<or> fl_less x y)"

definition fl_gt :: "fl \<Rightarrow> fl \<Rightarrow> bool" where
  "fl_gt x y = fl_less y x"

definition fl_ge :: "fl \<Rightarrow> fl \<Rightarrow> bool" where
  "fl_ge x y = fl_le y x"

text \<open>
  What is assumed of a rounding where a proof needs it: zero is rounded to zero, and
  rounding is monotone, as rounding to the nearest float is. Nothing is assumed about its
  precision or about where it overflows.
\<close>

definition rounding :: "(real \<Rightarrow> fl) \<Rightarrow> bool" where
  "rounding rnd \<longleftrightarrow> rnd 0 = Fin 0 \<and> (\<forall>x y. x \<le> y \<longrightarrow> fl_le (rnd x) (rnd y))"

text \<open>
  A rounding for the examples: exact below the magnitude \<open>m\<close>, and an infinity from \<open>m\<close>
  on; the examples take \<open>m = 2 ^ 1024\<close>, from where on a 64-bit float overflows.
\<close>

definition overflow_at :: "real \<Rightarrow> real \<Rightarrow> fl" where
  "overflow_at m x = (if m \<le> x then PInf else if x \<le> - m then NInf else Fin x)"

definition example_rounding :: "real \<Rightarrow> fl" where
  "example_rounding = overflow_at (2 ^ 1024)"

text \<open>
  A complex number is its real and imaginary part. numpy multiplies and divides a complex
  array by a real one by casting the real operand to complex (\<open>x + 0j\<close>); its complex
  division is Smith's method.
\<close>

type_synonym cfl = "fl \<times> fl"

definition of_fl :: "fl \<Rightarrow> cfl" where
  "of_fl x = (x, Fin 0)"

definition isnan_c :: "cfl \<Rightarrow> bool" where
  "isnan_c z = (isnan (fst z) \<or> isnan (snd z))"

definition isinf_c :: "cfl \<Rightarrow> bool" where
  "isinf_c z = (isinf (fst z) \<or> isinf (snd z))"

definition cadd :: "(real \<Rightarrow> fl) \<Rightarrow> cfl \<Rightarrow> cfl \<Rightarrow> cfl" where
  "cadd rnd z w = (fl_add rnd (fst z) (fst w), fl_add rnd (snd z) (snd w))"

definition cmul :: "(real \<Rightarrow> fl) \<Rightarrow> cfl \<Rightarrow> cfl \<Rightarrow> cfl" where
  "cmul rnd z w =
     (fl_sub rnd (fl_mul rnd (fst z) (fst w)) (fl_mul rnd (snd z) (snd w)),
      fl_add rnd (fl_mul rnd (fst z) (snd w)) (fl_mul rnd (snd z) (fst w)))"

definition cdiv :: "(real \<Rightarrow> fl) \<Rightarrow> cfl \<Rightarrow> cfl \<Rightarrow> cfl" where
  "cdiv rnd z w =
     (let in1r = fst z; in1i = snd z; in2r = fst w; in2i = snd w;
          in2r_abs = fl_abs in2r; in2i_abs = fl_abs in2i
      in if fl_ge in2r_abs in2i_abs then
           if in2r_abs = Fin 0 \<and> in2i_abs = Fin 0 then
             (fl_div rnd in1r in2r_abs, fl_div rnd in1i in2r_abs)
           else
             let rat = fl_div rnd in2i in2r;
                 scl = fl_div rnd (Fin 1) (fl_add rnd in2r (fl_mul rnd in2i rat))
             in (fl_mul rnd (fl_add rnd in1r (fl_mul rnd in1i rat)) scl,
                 fl_mul rnd (fl_sub rnd in1i (fl_mul rnd in1r rat)) scl)
         else
           let rat = fl_div rnd in2r in2i;
               scl = fl_div rnd (Fin 1) (fl_add rnd in2i (fl_mul rnd in2r rat))
           in (fl_mul rnd (fl_add rnd (fl_mul rnd in1r rat) in1i) scl,
               fl_mul rnd (fl_sub rnd (fl_mul rnd in1i rat) in1r) scl))"

text \<open>
  \<^verbatim>\<open>np.sum\<close> along the first axis adds the entries of a column from the first to the
  last; the sum of no entry is zero. \<^verbatim>\<open>np.nansum\<close> is the sum with every NaN entry
  replaced by zero.
\<close>

definition fl_sum :: "(real \<Rightarrow> fl) \<Rightarrow> fl list \<Rightarrow> fl" where
  "fl_sum rnd xs = (case xs of [] \<Rightarrow> Fin 0 | x # xs' \<Rightarrow> foldl (fl_add rnd) x xs')"

definition csum :: "(real \<Rightarrow> fl) \<Rightarrow> cfl list \<Rightarrow> cfl" where
  "csum rnd zs = (case zs of [] \<Rightarrow> (Fin 0, Fin 0) | z # zs' \<Rightarrow> foldl (cadd rnd) z zs')"

definition nansum :: "(real \<Rightarrow> fl) \<Rightarrow> cfl list \<Rightarrow> cfl" where
  "nansum rnd zs = csum rnd (map (\<lambda>z. if isnan_c z then (Fin 0, Fin 0) else z) zs)"

text \<open>
  An n-dimensional array is its shape and its entries by multi-index. An operation along
  the first axis sees, at each index \<open>p\<close> of the remaining axes, the column of the
  entries at \<open>t # p\<close> for \<open>t\<close> below the length of the first axis.
\<close>

record 'a ndarray =
  shape :: "nat list"
  item :: "nat list \<Rightarrow> 'a"

definition column :: "'a ndarray \<Rightarrow> nat list \<Rightarrow> 'a list" where
  "column a p = map (\<lambda>t. item a (t # p)) [0..<hd (shape a)]"

definition reduce0 :: "('a list \<Rightarrow> 'b) \<Rightarrow> 'a ndarray \<Rightarrow> 'b ndarray" where
  "reduce0 f a = \<lparr>shape = tl (shape a), item = (\<lambda>p. f (column a p))\<rparr>"

definition amap2 :: "('a \<Rightarrow> 'b \<Rightarrow> 'c) \<Rightarrow> 'a ndarray \<Rightarrow> 'b ndarray \<Rightarrow> 'c ndarray" where
  "amap2 f a b = \<lparr>shape = shape a, item = (\<lambda>i. f (item a i) (item b i))\<rparr>"

text \<open>
  An array of the shape of the trailing axes combined with every slice along the first
  axis (numpy's broadcasting of \<open>(nbl, nfreq, npol)\<close> against
  \<open>(ntimes, nbl, nfreq, npol)\<close>).
\<close>

definition bcast2 :: "('a \<Rightarrow> 'b \<Rightarrow> 'c) \<Rightarrow> 'a ndarray \<Rightarrow> 'b ndarray \<Rightarrow> 'c ndarray" where
  "bcast2 f a b = \<lparr>shape = shape a, item = (\<lambda>i. f (item a i) (item b (tl i)))\<rparr>"

datatype error = AssertionError | ValueError | IndexError | KeyError

section \<open>\<^verbatim>\<open>lst_average\<close>: statistics over the nights of one LST bin\<close>

text \<open>
  \<^verbatim>\<open>lst_average(data, nsamples, flags, flag_thresh, median, mutable,
  sigma_clip_thresh, sigma_clip_min_N)\<close> of \<^verbatim>\<open>lstbin_simple.py\<close>, one binding
  of the \<open>let\<close> per assignment of the source. The arguments \<^verbatim>\<open>median\<close> (unused)
  and \<^verbatim>\<open>mutable\<close> (whether the inputs are copied first) do not change what is
  returned and are left out, as are the log messages. For arrays without an axis
  \<^verbatim>\<open>flags.shape[0]\<close> raises IndexError.

  Two functions that the source calls are defined elsewhere and are parameters of the
  model:
  \<^item> \<open>sigma_clip\<close>, imported from \<^verbatim>\<open>.lstbin\<close>, called as
    \<^verbatim>\<open>sigma_clip(data, sigma=sigma_clip_thresh, min_N=sigma_clip_min_N)\<close> and
    returning an array of flags of the shape of \<open>data\<close>;
  \<^item> \<open>nanstd\<close>, numpy's standard deviation of the entries of a column that are not NaN.
\<close>

definition std_of_column :: "(real \<Rightarrow> fl) \<Rightarrow> (fl list \<Rightarrow> fl) \<Rightarrow> cfl list \<Rightarrow> cfl" where
  \<comment> \<open>\<^verbatim>\<open>np.nanstd(data.real, axis=0) + 1j*np.nanstd(data.imag, axis=0)\<close>\<close>
  "std_of_column rnd nanstd col =
     cadd rnd (of_fl (nanstd (map fst col)))
       (cmul rnd (Fin 0, Fin 1) (of_fl (nanstd (map snd col))))"

definition lst_average ::
  "(real \<Rightarrow> fl) \<Rightarrow> (cfl ndarray \<Rightarrow> fl \<Rightarrow> int \<Rightarrow> bool ndarray) \<Rightarrow> (fl list \<Rightarrow> fl) \<Rightarrow>
   cfl ndarray \<Rightarrow> fl ndarray \<Rightarrow> bool ndarray \<Rightarrow> fl \<Rightarrow> fl \<Rightarrow> int \<Rightarrow>
   error + (cfl ndarray \<times> bool ndarray \<times> cfl ndarray \<times> fl ndarray)" where
  "lst_average rnd sigma_clip nanstd data nsamples flags flag_thresh sigma_clip_thresh
       sigma_clip_min_N =
     (if \<not> (shape data = shape nsamples \<and> shape nsamples = shape flags) then Inl AssertionError
      else if shape flags = [] then Inl IndexError
      else
        let \<comment> \<open>\<^verbatim>\<open>flags[np.isnan(data) | np.isinf(data) | (nsamples == 0)] = True\<close>\<close>
            flags = amap2 (\<lambda>f (d, n). f \<or> isnan_c d \<or> isinf_c d \<or> n = Fin 0)
                      flags (amap2 Pair data nsamples);
            \<comment> \<open>\<^verbatim>\<open>flag_frac = np.sum(flags, axis=0) / flags.shape[0]\<close>\<close>
            flag_frac = reduce0 (\<lambda>col. fl_div rnd (Fin (real (length (filter id col))))
                                            (Fin (real (hd (shape flags))))) flags;
            \<comment> \<open>\<^verbatim>\<open>flags |= flag_frac > flag_thresh\<close>\<close>
            flags = bcast2 (\<lambda>f frac. f \<or> fl_gt frac flag_thresh) flags flag_frac;
            \<comment> \<open>\<^verbatim>\<open>data[flags] *= np.nan\<close>\<close>
            data = amap2 (\<lambda>d f. if f then cmul rnd d (of_fl NaN) else d) data flags;
            \<comment> \<open>\<^verbatim>\<open>if sigma_clip_thresh > 0:\<close> clip, and set the clipped data to NaN\<close>
            flags = (if fl_gt sigma_clip_thresh (Fin 0)
                     then amap2 (\<or>) flags (sigma_clip data sigma_clip_thresh sigma_clip_min_N)
                     else flags);
            data = (if fl_gt sigma_clip_thresh (Fin 0)
                    then amap2 (\<lambda>d f. if f then cmul rnd d (of_fl NaN) else d) data flags
                    else data);
            std = reduce0 (std_of_column rnd nanstd) data;
            \<comment> \<open>\<^verbatim>\<open>nsamples[flags] = 0\<close>\<close>
            nsamples = amap2 (\<lambda>n f. if f then Fin 0 else n) nsamples flags;
            \<comment> \<open>\<^verbatim>\<open>norm = np.sum(nsamples, axis=0)\<close>\<close>
            norm = reduce0 (fl_sum rnd) nsamples;
            \<comment> \<open>\<^verbatim>\<open>data = np.nansum(data * nsamples, axis=0)\<close>\<close>
            data = reduce0 (nansum rnd) (amap2 (\<lambda>d n. cmul rnd d (of_fl n)) data nsamples);
            \<comment> \<open>\<^verbatim>\<open>data[norm>0] /= norm[norm>0]\<close>\<close>
            data = amap2 (\<lambda>d n. if fl_gt n (Fin 0) then cdiv rnd d (of_fl n) else d) data norm;
            \<comment> \<open>\<^verbatim>\<open>data[norm<=0] = 1\<close>\<close>
            data = amap2 (\<lambda>d n. if fl_le n (Fin 0) then of_fl (Fin 1) else d) data norm;
            \<comment> \<open>\<^verbatim>\<open>f_min = np.all(flags, axis=0)\<close>\<close>
            f_min = reduce0 (list_all id) flags;
            \<comment> \<open>\<^verbatim>\<open>std[f_min] = 1.0\<close>\<close>
            std = amap2 (\<lambda>s f. if f then of_fl (Fin 1) else s) std f_min;
            \<comment> \<open>\<^verbatim>\<open>norm[f_min] = 0\<close>\<close>
            norm = amap2 (\<lambda>n f. if f then Fin 0 else n) norm f_min
        in Inr (data, f_min, std, norm))"

text \<open>
  An example input: two nights, two baselines, one frequency, one polarisation. Baseline
  \<open>0\<close> is flagged on both nights and its data are NaN; baseline \<open>1\<close> is never flagged.
\<close>

definition example_data :: "cfl ndarray" where
  "example_data =
     \<lparr>shape = [2, 2, 1, 1],
      item = (\<lambda>i. if hd (tl i) = 0 then (NaN, Fin 0) else (Fin 3, Fin 4))\<rparr>"

definition example_nsamples :: "fl ndarray" where
  "example_nsamples = \<lparr>shape = [2, 2, 1, 1], item = (\<lambda>i. Fin 1)\<rparr>"

definition example_flags :: "bool ndarray" where
  "example_flags = \<lparr>shape = [2, 2, 1, 1], item = (\<lambda>i. hd (tl i) = 0)\<rparr>"

definition no_clip :: "cfl ndarray \<Rightarrow> fl \<Rightarrow> int \<Rightarrow> bool ndarray" where
  "no_clip d sigma min_N = \<lparr>shape = shape d, item = (\<lambda>i. False)\<rparr>"

text \<open>
  A second example: one baseline, unflagged, with the data \<open>2 ^ 1023\<close> on both nights,
  whose sum overflows in 64-bit floats.
\<close>

definition huge_data :: "cfl ndarray" where
  "huge_data = \<lparr>shape = [2, 1, 1, 1], item = (\<lambda>i. (Fin (2 ^ 1023), Fin 0))\<rparr>"

definition huge_nsamples :: "fl ndarray" where
  "huge_nsamples = \<lparr>shape = [2, 1, 1, 1], item = (\<lambda>i. Fin 1)\<rparr>"

definition huge_flags :: "bool ndarray" where
  "huge_flags = \<lparr>shape = [2, 1, 1, 1], item = (\<lambda>i. False)\<rparr>"

section \<open>\<^verbatim>\<open>simple_lst_bin\<close>: splitting the data into LST bins\<close>

text \<open>
  \<^verbatim>\<open>2*np.pi\<close>: \<^verbatim>\<open>np.pi\<close> is the float nearest to \<open>\<pi>\<close>, and the product is a float
  operation.
\<close>

definition two_pi :: "(real \<Rightarrow> fl) \<Rightarrow> fl" where
  "two_pi rnd = fl_mul rnd (Fin 2) (rnd pi)"

text \<open>
  \<^verbatim>\<open>adjust_lst_bin_edges(lst_bin_edges)\<close>: two \<^verbatim>\<open>while\<close> loops that shift all
  the edges by \<open>2\<pi>\<close> until the first edge is in \<open>[0, 2\<pi>)\<close>. A loop that does not stop
  is the value \<open>None\<close>. Reading \<^verbatim>\<open>lst_bin_edges[0]\<close> of an empty array raises
  IndexError.
\<close>

partial_function (option) shift_up :: "(real \<Rightarrow> fl) \<Rightarrow> fl list \<Rightarrow> fl list option" where
  "shift_up rnd lst_bin_edges =
     (if fl_less (hd lst_bin_edges) (Fin 0)
      then shift_up rnd (map (\<lambda>e. fl_add rnd e (two_pi rnd)) lst_bin_edges)
      else Some lst_bin_edges)"

partial_function (option) shift_down :: "(real \<Rightarrow> fl) \<Rightarrow> fl list \<Rightarrow> fl list option" where
  "shift_down rnd lst_bin_edges =
     (if fl_ge (hd lst_bin_edges) (two_pi rnd)
      then shift_down rnd (map (\<lambda>e. fl_sub rnd e (two_pi rnd)) lst_bin_edges)
      else Some lst_bin_edges)"

definition adjust_lst_bin_edges :: "(real \<Rightarrow> fl) \<Rightarrow> fl list \<Rightarrow> (error + fl list) option" where
  "adjust_lst_bin_edges rnd lst_bin_edges =
     (if lst_bin_edges = [] then Some (Inl IndexError)
      else case shift_up rnd lst_bin_edges of
             None \<Rightarrow> None
           | Some up \<Rightarrow>
               (case shift_down rnd up of None \<Rightarrow> None | Some down \<Rightarrow> Some (Inr down)))"

text \<open>\<^verbatim>\<open>np.diff\<close> of a one-dimensional array.\<close>

definition diff :: "(real \<Rightarrow> fl) \<Rightarrow> fl list \<Rightarrow> fl list" where
  "diff rnd xs = map2 (\<lambda>a b. fl_sub rnd b a) xs (tl xs)"

text \<open>
  The float remainder \<^verbatim>\<open>a % b\<close> of numpy: the remainder of C's \<^verbatim>\<open>fmod\<close>, which
  is exact and has the sign of \<open>a\<close>, moved by \<open>b\<close> when its sign is not that of \<open>b\<close>.
\<close>

fun fl_fmod :: "fl \<Rightarrow> fl \<Rightarrow> fl" where
  "fl_fmod NaN _ = NaN"
| "fl_fmod _ NaN = NaN"
| "fl_fmod PInf _ = NaN"
| "fl_fmod NInf _ = NaN"
| "fl_fmod (Fin a) (Fin b) =
     (if b = 0 then NaN
      else Fin (a - b * of_int (if 0 \<le> a / b then \<lfloor>a / b\<rfloor> else \<lceil>a / b\<rceil>)))"
| "fl_fmod (Fin a) _ = Fin a"

definition fl_remainder :: "(real \<Rightarrow> fl) \<Rightarrow> fl \<Rightarrow> fl \<Rightarrow> fl" where
  "fl_remainder rnd a b =
     (let m = fl_fmod a b in
      if b = Fin 0 then m
      else if m \<noteq> Fin 0 then
        (if fl_less b (Fin 0) \<noteq> fl_less m (Fin 0) then fl_add rnd m b else m)
      else Fin 0)"

text \<open>
  \<^verbatim>\<open>get_lst_bins(lsts, edges)\<close>. \<^verbatim>\<open>np.digitize(lsts, edges, right=True)\<close> is a
  function of numpy and a parameter of the model: it returns the index of the bin of each
  value, or raises.
\<close>

definition get_lst_bins ::
  "(real \<Rightarrow> fl) \<Rightarrow> (fl list \<Rightarrow> fl list \<Rightarrow> error + int list) \<Rightarrow> fl list \<Rightarrow> fl list \<Rightarrow>
   error + (int list \<times> fl list \<times> bool list)" where
  "get_lst_bins rnd digitize lsts edges =
     (let lsts = map (\<lambda>l. fl_remainder rnd l (two_pi rnd)) lsts in
      if edges = [] then Inl IndexError
      else
        let lsts = map (\<lambda>l. if fl_less l (hd edges) then fl_add rnd l (two_pi rnd) else l) lsts in
        case digitize lsts edges of
          Inl e \<Rightarrow> Inl e
        | Inr d \<Rightarrow>
            let bins = map (\<lambda>b. b - 1) d;
                mask = map (\<lambda>b. b \<ge> 0 \<and> b < int (length edges) - 1) bins
            in Inr (bins, lsts, mask))"

text \<open>
  For the examples: what \<^verbatim>\<open>np.digitize(x, bins, right=True)\<close> returns for increasing
  bins without NaN, the number of bins below the value (all of them for a NaN value).
\<close>

definition digitize_increasing :: "fl list \<Rightarrow> fl list \<Rightarrow> error + int list" where
  "digitize_increasing xs bins =
     Inr (map (\<lambda>x. if isnan x then int (length bins)
                    else int (length (filter (\<lambda>e. fl_less e x) bins))) xs)"

text \<open>Indexing with a boolean mask, along the first axis for an n-dimensional array.\<close>

definition mask_indices :: "bool list \<Rightarrow> nat list" where
  "mask_indices m = filter (\<lambda>t. m ! t) [0..<length m]"

definition select_list :: "bool list \<Rightarrow> 'a list \<Rightarrow> 'a list" where
  "select_list m xs = map (\<lambda>t. xs ! t) (mask_indices m)"

definition select0 :: "bool list \<Rightarrow> 'a ndarray \<Rightarrow> 'a ndarray" where
  "select0 m a =
     \<lparr>shape = length (mask_indices m) # tl (shape a),
      item = (\<lambda>i. item a ((mask_indices m ! hd i) # tl i))\<rparr>"

definition full :: "nat list \<Rightarrow> 'a \<Rightarrow> 'a ndarray" where
  "full shp v = \<lparr>shape = shp, item = (\<lambda>i. v)\<rparr>"

type_synonym vec = "fl list"

type_synonym lst_bins = "fl list \<times> cfl ndarray list \<times> bool ndarray list \<times> fl ndarray list"

text \<open>
  The baseline vectors \<^verbatim>\<open>[antpos[k[0]] - antpos[k[1]] for k in baselines]\<close>; an
  antenna without a position raises KeyError.
\<close>

fun baseline_vectors ::
  "(real \<Rightarrow> fl) \<Rightarrow> (nat \<rightharpoonup> vec) \<Rightarrow> (nat \<times> nat) list \<Rightarrow> error + vec list" where
  "baseline_vectors rnd antpos [] = Inr []"
| "baseline_vectors rnd antpos (k # ks) =
     (case (antpos (fst k), antpos (snd k)) of
        (Some a, Some b) \<Rightarrow>
          (case baseline_vectors rnd antpos ks of
             Inl e \<Rightarrow> Inl e
           | Inr bls \<Rightarrow> Inr (map2 (fl_sub rnd) a b # bls))
      | _ \<Rightarrow> Inl KeyError)"

text \<open>
  \<^verbatim>\<open>simple_lst_bin(data, data_lsts, baselines, lst_bin_edges, freq_array, flags,
  nsamples, rephase, antpos, lat)\<close>. The rephasing itself,
  \<^verbatim>\<open>utils.lst_rephase_vectorized(data, bls, freq_array, lst_shift, lat=lat,
  inplace=True)\<close>, is a function of another module and a parameter of the model, which
  returns the rephased data. The result is \<open>None\<close> when the call does not return.
\<close>

definition simple_lst_bin ::
  "(real \<Rightarrow> fl) \<Rightarrow> (fl list \<Rightarrow> fl list \<Rightarrow> error + int list) \<Rightarrow>
   (cfl ndarray \<Rightarrow> vec list \<Rightarrow> fl list \<Rightarrow> fl list \<Rightarrow> fl \<Rightarrow> cfl ndarray) \<Rightarrow>
   cfl ndarray \<Rightarrow> fl list \<Rightarrow> (nat \<times> nat) list \<Rightarrow> fl list \<Rightarrow> fl list \<Rightarrow>
   bool ndarray option \<Rightarrow> fl ndarray option \<Rightarrow> bool \<Rightarrow> (nat \<rightharpoonup> vec) option \<Rightarrow> fl \<Rightarrow>
   (error + lst_bins) option" where
  "simple_lst_bin rnd digitize lst_rephase_vectorized data data_lsts baselines lst_bin_edges
       freq_array flags nsamples rephase antpos lat =
     (if shape data = [] then Some (Inl IndexError)
      else
        let npols = last (shape data);
            required_shape = [length data_lsts, length baselines, length freq_array, npols]
        in
        if npols > 4 then Some (Inl ValueError)
        else if shape data \<noteq> required_shape then Some (Inl ValueError)
        else
          let flags = (case flags of None \<Rightarrow> full (shape data) False | Some f \<Rightarrow> f) in
          if shape flags \<noteq> shape data then Some (Inl ValueError)
          else
            let nsamples = (case nsamples of None \<Rightarrow> full (shape data) (Fin 1) | Some n \<Rightarrow> n) in
            if shape nsamples \<noteq> shape data then Some (Inl ValueError)
            else if length lst_bin_edges < 2 then Some (Inl ValueError)
            else
              case adjust_lst_bin_edges rnd lst_bin_edges of
                None \<Rightarrow> None
              | Some (Inl e) \<Rightarrow> Some (Inl e)
              | Some (Inr lst_bin_edges) \<Rightarrow>
                  if \<not> list_all (\<lambda>d. fl_gt d (Fin 0)) (diff rnd lst_bin_edges)
                  then Some (Inl ValueError)
                  else
                    case get_lst_bins rnd digitize data_lsts lst_bin_edges of
                      Inl e \<Rightarrow> Some (Inl e)
                    | Inr (grid_indices, data_lsts, lst_mask) \<Rightarrow>
                        let lst_bin_centres =
                              map2 (\<lambda>a b. fl_div rnd (fl_add rnd a b) (Fin 2))
                                (tl lst_bin_edges) (butlast lst_bin_edges);
                            data = select0 lst_mask data;
                            flags = select0 lst_mask flags;
                            nsamples = select0 lst_mask nsamples;
                            data_lsts = select_list lst_mask data_lsts;
                            grid_indices = select_list lst_mask grid_indices;
                            rephased =
                              (if rephase then
                                 (case antpos of
                                    None \<Rightarrow> Inl ValueError
                                  | Some pos \<Rightarrow>
                                      (case baseline_vectors rnd pos baselines of
                                         Inl e \<Rightarrow> Inl e
                                       | Inr bls \<Rightarrow>
                                           let lst_shift =
                                                 map2 (\<lambda>g l. fl_sub rnd (lst_bin_centres ! nat g) l)
                                                   grid_indices data_lsts
                                           in Inr (lst_rephase_vectorized data bls freq_array
                                                     lst_shift lat)))
                               else Inr data)
                        in
                        case rephased of
                          Inl e \<Rightarrow> Some (Inl e)
                        | Inr data \<Rightarrow>
                            let empty_shape =
                                  [0, length baselines, length freq_array, npols];
                                in_bin = (\<lambda>lstbin. map (\<lambda>g. g = int lstbin) grid_indices);
                                lstbins = [0..<length lst_bin_centres]
                            in Some (Inr
                                 (lst_bin_centres,
                                  map (\<lambda>b. if list_ex id (in_bin b) then select0 (in_bin b) data
                                            else full empty_shape (Fin 0, Fin 0)) lstbins,
                                  map (\<lambda>b. if list_ex id (in_bin b) then select0 (in_bin b) flags
                                            else full empty_shape False) lstbins,
                                  map (\<lambda>b. if list_ex id (in_bin b) then select0 (in_bin b) nsamples
                                            else full empty_shape (Fin 0)) lstbins)))"

section \<open>The redundancy grouper\<close>

text \<open>
  Modelled from the spec: \<^verbatim>\<open>get_pos_reds\<close> is a function of the module
  \<^verbatim>\<open>hera_cal.redcal\<close>, whose source is missing; its tests
  (\<^verbatim>\<open>test_redcal.py\<close>) are present. Following section 4.1 of the specification:
  the antenna pairs \<open>(i, j)\<close> with \<open>i \<noteq> j\<close> are enumerated once each, in the order of the antennas; the separation vector
  of a pair is \<open>antpos[j] - antpos[i]\<close>; a pair whose vector is not in the canonical
  orientation (non-negative first nonzero coordinate) is replaced by the reversed pair and
  the negated vector; a pair joins the first group whose vector is closer than the
  tolerance to its own, and opens a new group otherwise; the groups are returned by
  increasing baseline length (the sort is stable, so that groups of one length keep the
  order in which they were opened). Positions are exact reals, and the norm is compared
  through its square.
\<close>

type_synonym pos = "real \<times> real \<times> real"

type_synonym antpair = "nat \<times> nat"

definition vsub :: "pos \<Rightarrow> pos \<Rightarrow> pos" where
  "vsub a b = (fst a - fst b, fst (snd a) - fst (snd b), snd (snd a) - snd (snd b))"

definition vneg :: "pos \<Rightarrow> pos" where
  "vneg a = (- fst a, - fst (snd a), - snd (snd a))"

definition sqnorm :: "pos \<Rightarrow> real" where
  "sqnorm a = fst a * fst a + fst (snd a) * fst (snd a) + snd (snd a) * snd (snd a)"

definition canonical :: "pos \<Rightarrow> bool" where
  "canonical d =
     (fst d > 0 \<or> (fst d = 0 \<and> (fst (snd d) > 0 \<or> (fst (snd d) = 0 \<and> snd (snd d) \<ge> 0))))"

definition close_to :: "real \<Rightarrow> pos \<Rightarrow> pos \<Rightarrow> bool" where
  "close_to tol d e = (0 < tol \<and> sqnorm (vsub d e) < tol * tol)"

fun all_pairs :: "'a list \<Rightarrow> ('a \<times> 'a) list" where
  "all_pairs [] = []"
| "all_pairs (x # xs) = map (Pair x) xs @ all_pairs xs"

definition orient :: "(nat \<times> pos) \<times> (nat \<times> pos) \<Rightarrow> antpair \<times> pos" where
  "orient p =
     (let i = fst (fst p); j = fst (snd p); d = vsub (snd (snd p)) (snd (fst p))
      in if canonical d then ((i, j), d) else ((j, i), vneg d))"

fun place ::
  "real \<Rightarrow> antpair \<times> pos \<Rightarrow> (pos \<times> antpair list) list \<Rightarrow> (pos \<times> antpair list) list" where
  "place tol bl [] = [(snd bl, [fst bl])]"
| "place tol bl (g # gs) =
     (if close_to tol (snd bl) (fst g) then (fst g, snd g @ [fst bl]) # gs
      else g # place tol bl gs)"

text \<open>
  Modelled from the spec: \<^verbatim>\<open>get_pos_reds(antenna_positions, tolerance)\<close> of
  \<^verbatim>\<open>hera_cal.redcal\<close> (source missing), with the antenna positions as the list of the
  entries of the mapping.
\<close>

definition get_pos_reds :: "(nat \<times> pos) list \<Rightarrow> real \<Rightarrow> antpair list list" where
  "get_pos_reds antpos tol =
     map snd (sort_key (\<lambda>g. sqnorm (fst g))
       (foldl (\<lambda>gs p. place tol (orient p) gs) [] (all_pairs antpos)))"

text \<open>An antenna pair without its orientation: the lower antenna first.\<close>

definition unordered :: "antpair \<Rightarrow> antpair" where
  "unordered p = (min (fst p) (snd p), max (fst p) (snd p))"


section \<open>Polarisations and the equation builder\<close>

text \<open>
  Modelled from the spec: \<^verbatim>\<open>split_pol\<close> and \<^verbatim>\<open>conj_pol\<close> of
  \<^verbatim>\<open>hera_cal.utils\<close>, and \<^verbatim>\<open>add_pol_reds\<close> and
  \<^verbatim>\<open>RedundantCalibrator.build_eqs\<close> of \<^verbatim>\<open>hera_cal.redcal\<close>, whose sources
  are missing; \<^verbatim>\<open>test_redcal.py\<close> shows their results. A polarisation
  is the pair of its two feed letters (\<^verbatim>\<open>'xy'\<close> is \<open>(x, y)\<close>) and splits into the
  feed tags of the two antennas (\<^verbatim>\<open>'Jxx'\<close> and \<^verbatim>\<open>'Jyy'\<close>); a baseline is
  \<open>(i, j, pol)\<close>.
\<close>

type_synonym pol = "char \<times> char"

type_synonym bl = "nat \<times> nat \<times> pol"

definition pol_str :: "pol \<Rightarrow> string" where
  "pol_str p = [fst p, snd p]"

definition feed :: "char \<Rightarrow> string" where
  "feed c = [CHR ''J'', c, c]"

definition split_pol :: "pol \<Rightarrow> string \<times> string" where
  "split_pol p = (feed (fst p), feed (snd p))"

definition conj_pol :: "pol \<Rightarrow> pol" where
  "conj_pol p = (snd p, fst p)"

definition xx :: pol where "xx = (CHR ''x'', CHR ''x'')"

definition xy :: pol where "xy = (CHR ''x'', CHR ''y'')"

definition yx :: pol where "yx = (CHR ''y'', CHR ''x'')"

definition yy :: pol where "yy = (CHR ''y'', CHR ''y'')"

text \<open>
  Modelled from the spec: \<^verbatim>\<open>add_pol_reds(position_groups, pols, pol_mode, ex_ants)\<close>
  (section 4.1). Every polarisation gives one group per positional group, in the order of
  \<open>pols\<close>; in the mode \<^verbatim>\<open>4pol_minV\<close> the first cross-feed polarisation gives, per
  positional group, one group with the baselines of this polarisation followed by those of
  the conjugate one, and the other cross-feed polarisations give nothing more. A baseline
  that touches an excluded (antenna, feed) tag is left out, which may leave a group empty.
\<close>

definition excluded :: "(nat \<times> string) list \<Rightarrow> nat \<times> nat \<Rightarrow> pol \<Rightarrow> bool" where
  "excluded ex_ants b p =
     ((fst b, fst (split_pol p)) \<in> set ex_ants \<or> (snd b, snd (split_pol p)) \<in> set ex_ants)"

definition with_pol :: "(nat \<times> string) list \<Rightarrow> pol \<Rightarrow> (nat \<times> nat) list \<Rightarrow> bl list" where
  "with_pol ex_ants p bls =
     map (\<lambda>b. (fst b, snd b, p)) (filter (\<lambda>b. \<not> excluded ex_ants b p) bls)"

fun add_pols ::
  "(nat \<times> nat) list list \<Rightarrow> (nat \<times> string) list \<Rightarrow> bool \<Rightarrow> bool \<Rightarrow> pol list \<Rightarrow> bl list list" where
  "add_pols reds ex_ants minV merged [] = []"
| "add_pols reds ex_ants minV merged (p # ps) =
     (if \<not> minV \<or> fst p = snd p then
        map (with_pol ex_ants p) reds @ add_pols reds ex_ants minV merged ps
      else if \<not> merged then
        map (\<lambda>bls. with_pol ex_ants p bls @ with_pol ex_ants (conj_pol p) bls) reds
          @ add_pols reds ex_ants minV True ps
      else add_pols reds ex_ants minV merged ps)"

definition add_pol_reds ::
  "(nat \<times> nat) list list \<Rightarrow> pol list \<Rightarrow> string \<Rightarrow> (nat \<times> string) list \<Rightarrow> bl list list" where
  "add_pol_reds reds pols pol_mode ex_ants =
     add_pols reds ex_ants (pol_mode = ''4pol_minV'') False pols"

text \<open>
  Modelled from the spec: \<^verbatim>\<open>build_eqs\<close> (section 4.2). The baseline \<open>(i, j, pol)\<close> of
  the group with index \<open>k\<close> gives the equation \<open>g_i * conj(g_j) * u_k = data\<close> over the
  unknowns \<open>g\<close> of the two (antenna, feed) tags and the unknown \<open>u\<close> of the group, which is
  named by \<open>k\<close> and the polarisation of the first baseline of the group. Only baselines
  with data give an equation. The key of an equation is the string
  \<^verbatim>\<open>'g_%d_%s * g_%d_%s_ * u_%d_%s'\<close> of the tests.
\<close>

definition digits :: string where
  "digits = ''0123456789''"

definition digit_char :: "nat \<Rightarrow> char" where
  "digit_char d = digits ! d"

function dec :: "nat \<Rightarrow> string" where
  "dec n = (if n < 10 then [digit_char n] else dec (n div 10) @ [digit_char (n mod 10)])"
  by pat_completeness auto
termination
  by (relation "measure id") auto

type_synonym eqn = "(nat \<times> string) \<times> (nat \<times> string) \<times> (nat \<times> pol)"

definition eqn_of :: "nat \<Rightarrow> pol \<Rightarrow> bl \<Rightarrow> eqn" where
  "eqn_of k p0 b =
     ((fst b, fst (split_pol (snd (snd b)))),
      (fst (snd b), snd (split_pol (snd (snd b)))),
      (k, p0))"

definition eq_key :: "eqn \<Rightarrow> string" where
  "eq_key e =
     ''g_'' @ dec (fst (fst e)) @ ''_'' @ snd (fst e) @
     '' * g_'' @ dec (fst (fst (snd e))) @ ''_'' @ snd (fst (snd e)) @
     ''_ * u_'' @ dec (fst (snd (snd e))) @ ''_'' @ pol_str (snd (snd (snd e)))"

definition group_eqns :: "bl list \<Rightarrow> nat \<times> bl list \<Rightarrow> (eqn \<times> bl) list" where
  "group_eqns bls_and_pols =
     (\<lambda>(k, grp). map (\<lambda>b. (eqn_of k (snd (snd (hd grp))) b, b))
                    (filter (\<lambda>b. b \<in> set bls_and_pols) grp))"

definition build_eqns :: "bl list list \<Rightarrow> bl list \<Rightarrow> (eqn \<times> bl) list" where
  "build_eqns reds bls_and_pols = concat (map (group_eqns bls_and_pols) (enumerate 0 reds))"

definition build_eqs :: "bl list list \<Rightarrow> bl list \<Rightarrow> (string \<times> bl) list" where
  "build_eqs reds bls_and_pols = map (\<lambda>(e, b). (eq_key e, b)) (build_eqns reds bls_and_pols)"

section \<open>Verification of \<^verbatim>\<open>lst_average\<close>\<close>

subsection \<open>Flagged data and sums of zeros\<close>

lemma fl_add_NaN_right: "fl_add rnd x NaN = NaN"
  by (cases x) simp_all

lemma fl_mul_NaN_right: "fl_mul rnd x NaN = NaN"
  by (cases x) simp_all

lemma cmul_nan: "cmul rnd z (of_fl NaN) = (NaN, NaN)"
  by (simp add: cmul_def of_fl_def fl_sub_def fl_add_NaN_right fl_mul_NaN_right)

lemma foldl_zeros:
  "rnd 0 = Fin 0 \<Longrightarrow> \<forall>x\<in>set xs. x = Fin 0 \<Longrightarrow> foldl (fl_add rnd) (Fin 0) xs = Fin 0"
  by (induction xs) simp_all

lemma fl_sum_zeros: "rnd 0 = Fin 0 \<Longrightarrow> \<forall>x\<in>set xs. x = Fin 0 \<Longrightarrow> fl_sum rnd xs = Fin 0"
  by (cases xs) (simp_all add: fl_sum_def foldl_zeros)

lemma example_rounding_small: "\<bar>x\<bar> \<le> 1000 \<Longrightarrow> example_rounding x = Fin x"
  by (auto simp: example_rounding_def overflow_at_def)

lemma example_rounding_zero: "example_rounding 0 = Fin 0"
  by (simp add: example_rounding_small)

lemma rounding_example_rounding: "rounding example_rounding"
  by (auto simp: rounding_def example_rounding_def overflow_at_def)

subsection \<open>Flagged positions and zero weights\<close>

text \<open>
  Claim C9. For every rounding that rounds zero to zero: whenever the three input arrays
  have one shape with at least one axis, \<^verbatim>\<open>lst_average\<close> returns, and at every
  position \<open>p\<close> of the trailing axes (baseline, frequency, polarisation):
  \<^item> a position flagged on every night on input is flagged on output;
  \<^item> at a position flagged on output the returned data is \<open>1\<close>, the returned standard
    deviation is \<open>1\<close> and the returned number of samples is \<open>0\<close>;
  \<^item> where the returned number of samples (the summed sample count) is not positive, no
    division took place: the returned data is the constant \<open>1\<close>, so that a zero weight
    never gives a NaN.
\<close>

theorem lst_average_flagged_defaults:
  assumes rnd: "rnd 0 = Fin 0"
    and sh: "shape data = shape nsamples" "shape nsamples = shape flags" "shape flags \<noteq> []"
  shows "\<exists>d f s n.
     lst_average rnd sigma_clip nanstd data nsamples flags flag_thresh sigma_clip_thresh
       sigma_clip_min_N = Inr (d, f, s, n) \<and>
     (\<forall>p. ((\<forall>t < hd (shape flags). item flags (t # p)) \<longrightarrow> item f p) \<and>
          (item f p \<longrightarrow> item d p = of_fl (Fin 1) \<and> item s p = of_fl (Fin 1) \<and> item n p = Fin 0) \<and>
          (fl_le (item n p) (Fin 0) \<longrightarrow> item d p = of_fl (Fin 1)))"
proof -
  define flags1 where "flags1 = amap2 (\<lambda>f (d, n). f \<or> isnan_c d \<or> isinf_c d \<or> n = Fin 0)
                      flags (amap2 Pair data nsamples)"
  define flag_frac where "flag_frac = reduce0 (\<lambda>col. fl_div rnd (Fin (real (length (filter id col))))
                                            (Fin (real (hd (shape flags1))))) flags1"
  define flags2 where "flags2 = bcast2 (\<lambda>f frac. f \<or> fl_gt frac flag_thresh) flags1 flag_frac"
  define data2 where "data2 = amap2 (\<lambda>d f. if f then cmul rnd d (of_fl NaN) else d) data flags2"
  define flags3 where "flags3 = (if fl_gt sigma_clip_thresh (Fin 0)
                     then amap2 (\<or>) flags2 (sigma_clip data2 sigma_clip_thresh sigma_clip_min_N)
                     else flags2)"
  define data3 where "data3 = (if fl_gt sigma_clip_thresh (Fin 0)
                    then amap2 (\<lambda>d f. if f then cmul rnd d (of_fl NaN) else d) data2 flags3
                    else data2)"
  define std where "std = reduce0 (std_of_column rnd nanstd) data3"
  define nsamples2 where "nsamples2 = amap2 (\<lambda>n f. if f then Fin 0 else n) nsamples flags3"
  define norm where "norm = reduce0 (fl_sum rnd) nsamples2"
  define data4 where "data4 = reduce0 (nansum rnd) (amap2 (\<lambda>d n. cmul rnd d (of_fl n)) data3 nsamples2)"
  define data5 where "data5 = amap2 (\<lambda>d n. if fl_gt n (Fin 0) then cdiv rnd d (of_fl n) else d) data4 norm"
  define data6 where "data6 = amap2 (\<lambda>d n. if fl_le n (Fin 0) then of_fl (Fin 1) else d) data5 norm"
  define f_min where "f_min = reduce0 (list_all id) flags3"
  define std2 where "std2 = amap2 (\<lambda>s f. if f then of_fl (Fin 1) else s) std f_min"
  define norm2 where "norm2 = amap2 (\<lambda>n f. if f then Fin 0 else n) norm f_min"
  have c: "\<not> \<not> (shape data = shape nsamples \<and> shape nsamples = shape flags)" "\<not> shape flags = []"
    using sh by simp_all
  have eq: "lst_average rnd sigma_clip nanstd data nsamples flags flag_thresh sigma_clip_thresh
       sigma_clip_min_N = Inr (data6, f_min, std2, norm2)"
    unfolding lst_average_def
    by (simp only: c if_False Let_def flags1_def flag_frac_def flags2_def data2_def flags3_def
        data3_def std_def nsamples2_def norm_def data4_def data5_def data6_def f_min_def std2_def norm2_def)
  define T where "T = hd (shape flags)"
  have sh3: "shape flags3 = shape flags" and shn: "shape nsamples2 = shape flags"
    using sh by (simp_all add: flags1_def flags2_def flags3_def nsamples2_def amap2_def bcast2_def)
  have f1: "item flags i \<Longrightarrow> item flags1 i" for i
    by (simp add: flags1_def amap2_def)
  have f2: "item flags1 i \<Longrightarrow> item flags2 i" for i
    by (simp add: flags2_def bcast2_def)
  have f3: "item flags2 i \<Longrightarrow> item flags3 i" for i
    by (simp add: flags3_def amap2_def)
  have n2: "item nsamples2 i = (if item flags3 i then Fin 0 else item nsamples i)" for i
    by (simp add: nsamples2_def amap2_def)
  have nrm: "item norm p = fl_sum rnd (map (\<lambda>t. item nsamples2 (t # p)) [0..<T])" for p
    by (simp add: norm_def reduce0_def column_def shn T_def)
  have fm: "item f_min p = (\<forall>t<T. item flags3 (t # p))" for p
    by (auto simp: f_min_def reduce0_def column_def sh3 T_def list_all_iff)
  have d6: "fl_le (item norm p) (Fin 0) \<Longrightarrow> item data6 p = of_fl (Fin 1)" for p
    by (simp add: data6_def amap2_def)
  have s2: "item f_min p \<Longrightarrow> item std2 p = of_fl (Fin 1)" for p
    by (simp add: std2_def amap2_def)
  have nm2: "item norm2 p = (if item f_min p then Fin 0 else item norm p)" for p
    by (simp add: norm2_def amap2_def)
  have allfl: "item norm p = Fin 0" if "item f_min p" for p
    using that unfolding nrm fm by (intro fl_sum_zeros [where rnd = rnd, OF rnd]) (auto simp: n2)
  have A: "item f_min p" if "\<forall>t < hd (shape flags). item flags (t # p)" for p
    using that f3 f2 f1 unfolding fm T_def by blast
  have B: "item data6 p = of_fl (Fin 1) \<and> item std2 p = of_fl (Fin 1) \<and> item norm2 p = Fin 0"
    if "item f_min p" for p
    using that allfl [OF that] by (simp add: d6 s2 nm2)
  have C: "item data6 p = of_fl (Fin 1)" if "fl_le (item norm2 p) (Fin 0)" for p
    using that allfl [of p] by (cases "item f_min p") (simp_all add: d6 nm2)
  show ?thesis
    using eq A B C by blast
qed

theorem lst_average_flagged_defaults_witness:
  "\<exists>d f s n.
     lst_average example_rounding no_clip (\<lambda>col. NaN) example_data example_nsamples
        example_flags (Fin (7 / 10)) (Fin 0) 4 = Inr (d, f, s, n) \<and>
     item f [0, 0, 0] \<and> item d [0, 0, 0] = of_fl (Fin 1) \<and> item s [0, 0, 0] = of_fl (Fin 1) \<and>
     item n [0, 0, 0] = Fin 0"
proof -
  have sh: "shape example_data = shape example_nsamples"
    "shape example_nsamples = shape example_flags" "shape example_flags \<noteq> []"
    by (simp_all add: example_data_def example_nsamples_def example_flags_def)
  from lst_average_flagged_defaults [where rnd = example_rounding, OF example_rounding_zero sh,
      of no_clip "\<lambda>col. NaN" "Fin (7 / 10)" "Fin 0" 4]
  obtain d f s n where
    eq: "lst_average example_rounding no_clip (\<lambda>col. NaN) example_data example_nsamples
        example_flags (Fin (7 / 10)) (Fin 0) 4 = Inr (d, f, s, n)"
    and all: "\<And>p. ((\<forall>t < hd (shape example_flags). item example_flags (t # p)) \<longrightarrow> item f p) \<and>
          (item f p \<longrightarrow> item d p = of_fl (Fin 1) \<and> item s p = of_fl (Fin 1) \<and> item n p = Fin 0) \<and>
          (fl_le (item n p) (Fin 0) \<longrightarrow> item d p = of_fl (Fin 1))"
    by blast
  have a: "\<forall>t < hd (shape example_flags). item example_flags (t # [0, 0, 0])"
    by (simp add: example_flags_def)
  from all [of "[0, 0, 0]"] a eq show ?thesis
    by blast
qed

text \<open>
  At the unflagged baseline of the example the mean of the two nights is returned, with
  the two samples counted.
\<close>

lemma lst_average_example:
  "lst_average example_rounding no_clip (\<lambda>col. NaN) example_data example_nsamples
      example_flags (Fin (7 / 10)) (Fin 0) 4 = Inr (d, f, s, n) \<Longrightarrow>
   item d [1, 0, 0] = (Fin 3, Fin 4) \<and> item n [1, 0, 0] = Fin 2 \<and>
   item s [1, 0, 0] = (NaN, NaN) \<and> \<not> item f [1, 0, 0]"
  apply (simp add: lst_average_def example_data_def example_nsamples_def example_flags_def
      no_clip_def Let_def)
  apply (auto simp: amap2_def reduce0_def bcast2_def column_def upt_rec fl_gt_def isnan_c_def
      isinf_c_def cmul_def of_fl_def fl_sub_def nansum_def csum_def cadd_def fl_sum_def
      cdiv_def fl_ge_def std_of_column_def example_rounding_small)
  done

text \<open>
  Where the sum of the data overflows, the returned mean is not finite: the real part is
  infinite and the division makes the imaginary part NaN.
\<close>

lemma lst_average_overflow:
  "lst_average example_rounding no_clip (\<lambda>col. NaN) huge_data huge_nsamples
      huge_flags (Fin (7 / 10)) (Fin 0) 4 = Inr (d, f, s, n) \<Longrightarrow>
   item d [0, 0, 0] = (PInf, NaN) \<and> item n [0, 0, 0] = Fin 2 \<and> \<not> item f [0, 0, 0]"
  apply (simp add: lst_average_def huge_data_def huge_nsamples_def huge_flags_def
      no_clip_def Let_def)
  apply (auto simp: amap2_def reduce0_def bcast2_def column_def upt_rec fl_gt_def isnan_c_def
      isinf_c_def cmul_def of_fl_def fl_sub_def nansum_def csum_def cadd_def fl_sum_def
      cdiv_def fl_ge_def std_of_column_def example_rounding_def overflow_at_def)
  done

section \<open>Verification of \<^verbatim>\<open>simple_lst_bin\<close>\<close>

subsection \<open>The test on the differences of the edges\<close>

lemma fl_less_trans: "fl_less x y \<Longrightarrow> fl_less y z \<Longrightarrow> fl_less x z"
  by (cases x; cases y; cases z) simp_all

lemma transp_fl_less: "transp fl_less"
  by (rule transpI) (rule fl_less_trans)

lemma rounding_nonpositive:
  assumes "rounding rnd" "x \<le> 0"
  shows "\<not> fl_gt (rnd x) (Fin 0)"
proof -
  from assms have "fl_le (rnd x) (Fin 0)"
    by (metis rounding_def)
  then show ?thesis
    by (cases "rnd x") (auto simp: fl_gt_def)
qed

text \<open>A positive difference of two edges means that the second is the greater.\<close>

lemma diff_positive:
  assumes "rounding rnd" "fl_gt (fl_sub rnd b a) (Fin 0)"
  shows "fl_less a b"
proof (cases a)
  case a: (Fin x)
  show ?thesis
  proof (cases b)
    case (Fin y)
    with a assms(2) have "fl_gt (rnd (y - x)) (Fin 0)"
      by (simp add: fl_sub_def)
    with rounding_nonpositive [OF assms(1), of "y - x"] have "x < y"
      by (cases "x < y") auto
    with a Fin show ?thesis by simp
  qed (use a assms(2) in \<open>simp_all add: fl_sub_def fl_gt_def\<close>)
qed (use assms(2) in \<open>cases b; simp add: fl_sub_def fl_gt_def\<close>)+

lemma diff_Cons2: "diff rnd (x # y # ys) = fl_sub rnd y x # diff rnd (y # ys)"
  by (simp add: diff_def)

lemma diff_positive_sorted:
  assumes "rounding rnd"
  shows "list_all (\<lambda>d. fl_gt d (Fin 0)) (diff rnd xs) \<Longrightarrow> sorted_wrt fl_less xs"
proof (induction xs rule: induct_list012)
  case 1
  then show ?case by simp
next
  case (2 x)
  then show ?case by simp
next
  case (3 x y zs)
  then have "fl_gt (fl_sub rnd y x) (Fin 0)" "sorted_wrt fl_less (y # zs)"
    by (simp_all add: diff_Cons2)
  with diff_positive [OF assms] show ?case
    by (simp add: sorted_wrt2 [OF transp_fl_less] del: sorted_wrt.simps)
qed

subsection \<open>The adjustment of the edges\<close>

text \<open>
  With the first edge in \<open>[0, 2\<pi>)\<close>, or NaN, neither loop of
  \<^verbatim>\<open>adjust_lst_bin_edges\<close> runs and the edges are returned as they are.
\<close>

lemma adjust_lst_bin_edges_in_range:
  assumes "edges \<noteq> []" "\<not> fl_less (hd edges) (Fin 0)" "\<not> fl_ge (hd edges) (two_pi rnd)"
  shows "adjust_lst_bin_edges rnd edges = Some (Inr edges)"
proof -
  have "shift_up rnd edges = Some edges"
    using assms(2) by (subst shift_up.simps) simp
  moreover have "shift_down rnd edges = Some edges"
    using assms(3) by (subst shift_down.simps) simp
  ultimately show ?thesis
    using assms(1) by (simp add: adjust_lst_bin_edges_def)
qed

text \<open>
  The second loop never stops when subtracting \<open>2\<pi>\<close> leaves the first edge as it is: an
  infinite first edge, or a finite one so large that the difference is rounded back to
  it.
\<close>

lemma shift_down_absorbed:
  assumes ret: "shift_down rnd edges = Some y"
    and ge: "fl_ge x (two_pi rnd)" and ab: "fl_sub rnd x (two_pi rnd) = x"
  shows "edges = [] \<or> hd edges \<noteq> x"
proof -
  have "fl_ge x (two_pi rnd) \<longrightarrow> fl_sub rnd x (two_pi rnd) = x \<longrightarrow> edges = [] \<or> hd edges \<noteq> x"
  proof (rule shift_down.raw_induct [OF _ ret])
    fix sd :: "(real \<Rightarrow> fl) \<Rightarrow> fl list \<Rightarrow> fl list option" and r es ys
    assume IH: "\<And>r' es' y'. sd r' es' = Some y' \<Longrightarrow>
        fl_ge x (two_pi r') \<longrightarrow> fl_sub r' x (two_pi r') = x \<longrightarrow> es' = [] \<or> hd es' \<noteq> x"
      and eq: "(if fl_ge (hd es) (two_pi r) then sd r (map (\<lambda>e. fl_sub r e (two_pi r)) es)
               else Some es) = Some ys"
    show "fl_ge x (two_pi r) \<longrightarrow> fl_sub r x (two_pi r) = x \<longrightarrow> es = [] \<or> hd es \<noteq> x"
    proof (intro impI, rule ccontr)
      assume g: "fl_ge x (two_pi r)" and a: "fl_sub r x (two_pi r) = x"
        and "\<not> (es = [] \<or> hd es \<noteq> x)"
      then have ne: "es \<noteq> []" and hd: "hd es = x" by simp_all
      with eq g have "sd r (map (\<lambda>e. fl_sub r e (two_pi r)) es) = Some ys" by simp
      from IH [OF this] g a
      have "map (\<lambda>e. fl_sub r e (two_pi r)) es = [] \<or> hd (map (\<lambda>e. fl_sub r e (two_pi r)) es) \<noteq> x"
        by blast
      then show False using ne hd a by (simp add: hd_map)
    qed
  qed
  with ge ab show ?thesis by blast
qed

lemma adjust_lst_bin_edges_absorbed:
  assumes "\<not> fl_less x (Fin 0)" "fl_ge x (two_pi rnd)" "fl_sub rnd x (two_pi rnd) = x"
  shows "adjust_lst_bin_edges rnd (x # es) = None"
proof -
  have up: "shift_up rnd (x # es) = Some (x # es)"
    using assms(1) by (subst shift_up.simps) simp
  have "shift_down rnd (x # es) = None"
    using shift_down_absorbed [OF _ assms(2,3), of "x # es"]
    by (cases "shift_down rnd (x # es)") auto
  with up show ?thesis by (simp add: adjust_lst_bin_edges_def)
qed

lemma two_pi_example_rounding: "two_pi example_rounding = Fin (2 * pi)"
proof -
  from pi_less_4 pi_gt_zero have "\<bar>pi\<bar> \<le> 1000" "\<bar>2 * pi\<bar> \<le> 1000"
    by linarith+
  then show ?thesis
    by (simp add: two_pi_def example_rounding_small)
qed

lemma adjust_lst_bin_edges_infinite:
  "adjust_lst_bin_edges example_rounding (PInf # es) = None"
  by (rule adjust_lst_bin_edges_absorbed)
    (simp_all add: two_pi_example_rounding fl_ge_def fl_sub_def)

subsection \<open>A valid call\<close>

text \<open>A call with valid input returns one bin with the one time sample in it.\<close>

lemma floor_inv_two_pi: "\<lfloor>1 / (2 * pi)\<rfloor> = 0"
proof -
  have "0 \<le> 1 / (2 * pi)" by simp
  moreover have "1 / (2 * pi) < 1" using pi_ge_two by simp
  ultimately show ?thesis by linarith
qed

lemma simple_lst_bin_example:
  "\<exists>d f n. simple_lst_bin example_rounding digitize_increasing (\<lambda>d bls freqs shift lat. d)
      (full [1, 1, 1, 1] (Fin 1, Fin 0)) [Fin 1] [(0, 1)] [Fin 0, Fin 2] [Fin 1] None None False
      None (Fin 0) = Some (Inr ([Fin 1], d, f, n)) \<and>
     map shape d = [[1, 1, 1, 1]] \<and> map shape f = [[1, 1, 1, 1]] \<and> map shape n = [[1, 1, 1, 1]]"
proof -
  let ?rnd = example_rounding
  have small: "?rnd 2 = Fin 2" "?rnd 1 = Fin 1"
    by (simp_all add: example_rounding_small)
  have adj: "adjust_lst_bin_edges ?rnd [Fin 0, Fin 2] = Some (Inr [Fin 0, Fin 2])"
    by (rule adjust_lst_bin_edges_in_range) (simp_all add: two_pi_example_rounding fl_ge_def)
  have bins: "get_lst_bins ?rnd digitize_increasing [Fin 1] [Fin 0, Fin 2] = Inr ([0], [Fin 1], [True])"
    by (simp add: get_lst_bins_def digitize_increasing_def fl_remainder_def floor_inv_two_pi
        two_pi_example_rounding)
  show ?thesis
    by (simp add: simple_lst_bin_def full_def adj bins diff_def fl_sub_def fl_gt_def Let_def
        select0_def select_list_def mask_indices_def small)
qed

subsection \<open>Invalid input raises ValueError\<close>

text \<open>
  Claim C10. For data with a last axis (whose length is the number of polarisations
  \<open>npols\<close>; \<^verbatim>\<open>data.shape[-1]\<close> of a 0-dimensional array raises IndexError before any
  check), \<^verbatim>\<open>simple_lst_bin\<close> raises ValueError, whatever the rephasing function and
  the other arguments are, and so returns no bins, whenever
  \<^item> the data have more than 4 polarisations, or
  \<^item> the shape of the data is not \<open>(len(data_lsts), len(baselines), len(freq_array), npols)\<close>, or
  \<^item> flags or nsamples are given with a shape other than that of the data, or
  \<^item> there are fewer than 2 bin edges, or
  \<^item> the adjustment of the edges returns, and the adjusted edges are not strictly
    increasing; in particular when the first edge is already in \<open>[0, 2\<pi>)\<close>, where the
    adjusted edges are the given ones.
  The last case is for every monotone rounding that rounds zero to zero. Where the
  adjustment does not return, neither does \<^verbatim>\<open>simple_lst_bin\<close>.
\<close>

theorem simple_lst_bin_invalid_input:
  assumes nd: "shape data \<noteq> []"
    and bad: "last (shape data) > 4 \<or>
       shape data \<noteq> [length data_lsts, length baselines, length freq_array, last (shape data)] \<or>
       (\<exists>f. flags = Some f \<and> shape f \<noteq> shape data) \<or>
       (\<exists>n. nsamples = Some n \<and> shape n \<noteq> shape data) \<or>
       length lst_bin_edges < 2 \<or>
       (rounding rnd \<and>
        (\<exists>e. adjust_lst_bin_edges rnd lst_bin_edges = Some (Inr e) \<and> \<not> sorted_wrt fl_less e)) \<or>
       (rounding rnd \<and> \<not> fl_less (hd lst_bin_edges) (Fin 0) \<and>
        \<not> fl_ge (hd lst_bin_edges) (two_pi rnd) \<and> \<not> sorted_wrt fl_less lst_bin_edges)"
  shows "simple_lst_bin rnd digitize lst_rephase_vectorized data data_lsts baselines lst_bin_edges
           freq_array flags nsamples rephase antpos lat = Some (Inl ValueError)"
proof -
  let ?r = "simple_lst_bin rnd digitize lst_rephase_vectorized data data_lsts baselines
           lst_bin_edges freq_array flags nsamples rephase antpos lat"
  let ?req = "[length data_lsts, length baselines, length freq_array, last (shape data)]"
  have adj: "?r = Some (Inl ValueError)"
    if "rounding rnd" "adjust_lst_bin_edges rnd lst_bin_edges = Some (Inr e)"
      "\<not> sorted_wrt fl_less e" for e
  proof -
    from that(1,3) have "\<not> list_all (\<lambda>d. fl_gt d (Fin 0)) (diff rnd e)"
      using diff_positive_sorted by blast
    with that(2) nd show ?thesis
      unfolding simple_lst_bin_def by (simp add: Let_def)
  qed
  show ?thesis
  proof (cases "last (shape data) > 4 \<or> shape data \<noteq> ?req \<or>
       (\<exists>f. flags = Some f \<and> shape f \<noteq> shape data) \<or>
       (\<exists>n. nsamples = Some n \<and> shape n \<noteq> shape data) \<or>
       length lst_bin_edges < 2")
    case True
    then show ?thesis
      using nd unfolding simple_lst_bin_def
      by (auto simp: Let_def full_def split: option.splits)
  next
    case False
    with bad consider
      e where "rounding rnd" "adjust_lst_bin_edges rnd lst_bin_edges = Some (Inr e)"
        "\<not> sorted_wrt fl_less e"
      | "rounding rnd" "\<not> fl_less (hd lst_bin_edges) (Fin 0)"
        "\<not> fl_ge (hd lst_bin_edges) (two_pi rnd)" "\<not> sorted_wrt fl_less lst_bin_edges"
      by blast
    then show ?thesis
    proof cases
      case 1
      then show ?thesis by (rule adj)
    next
      case 2
      from False have "lst_bin_edges \<noteq> []" by auto
      then have "adjust_lst_bin_edges rnd lst_bin_edges = Some (Inr lst_bin_edges)"
        using 2(2,3) by (rule adjust_lst_bin_edges_in_range)
      with 2(1) show ?thesis
        using 2(4) by (rule adj)
    qed
  qed
qed

theorem simple_lst_bin_invalid_input_witness:
  "simple_lst_bin example_rounding digitize_increasing (\<lambda>d bls freqs shift lat. d)
      (full [1, 1, 1, 1] (Fin 0, Fin 0)) [Fin 0] [(0, 1)] [Fin 1, Fin 1] [Fin 1] None None True
      None (Fin 0) = Some (Inl ValueError) \<and>
   simple_lst_bin example_rounding digitize_increasing (\<lambda>d bls freqs shift lat. d)
      (full [1, 1, 1, 5] (Fin 0, Fin 0)) [Fin 0] [(0, 1)] [Fin 0, Fin 1] [Fin 1] None None True
      None (Fin 0) = Some (Inl ValueError) \<and>
   simple_lst_bin example_rounding digitize_increasing (\<lambda>d bls freqs shift lat. d)
      (full [1, 1, 1, 1] (Fin 0, Fin 0)) [Fin 0] [(0, 1)] [Fin 0, Fin 1] [Fin 1]
      (Some (full [1, 1, 1] False)) None True None (Fin 0) = Some (Inl ValueError)"
proof -
  let ?rnd = example_rounding
  have r: "rounding ?rnd"
    by (rule rounding_example_rounding)
  have e: "\<not> fl_less (hd [Fin 1, Fin 1]) (Fin 0)" "\<not> fl_ge (hd [Fin 1, Fin 1]) (two_pi ?rnd)"
    "\<not> sorted_wrt fl_less [Fin 1, Fin 1]"
    using pi_ge_two by (simp_all add: two_pi_example_rounding fl_ge_def)
  show ?thesis
    using
      simple_lst_bin_invalid_input [of "full [1, 1, 1, 1] (Fin 0, Fin 0)" "[Fin 0]" "[(0, 1)]"
        "[Fin 1]" None None "[Fin 1, Fin 1]" ?rnd digitize_increasing
        "\<lambda>d bls freqs shift lat. d" True None "Fin 0"]
      simple_lst_bin_invalid_input [of "full [1, 1, 1, 5] (Fin 0, Fin 0)" "[Fin 0]" "[(0, 1)]"
        "[Fin 1]" None None "[Fin 0, Fin 1]" ?rnd digitize_increasing
        "\<lambda>d bls freqs shift lat. d" True None "Fin 0"]
      simple_lst_bin_invalid_input [of "full [1, 1, 1, 1] (Fin 0, Fin 0)" "[Fin 0]" "[(0, 1)]"
        "[Fin 1]" "Some (full [1, 1, 1] False)" None "[Fin 0, Fin 1]" ?rnd digitize_increasing
        "\<lambda>d bls freqs shift lat. d" True None "Fin 0"]
      r e
    by (simp add: full_def)
qed

section \<open>Verification of the redundancy grouper\<close>

subsection \<open>Grouping neither loses nor repeats a pair\<close>

lemma mset_place:
  "mset (concat (map snd (place tol bl gs))) = add_mset (fst bl) (mset (concat (map snd gs)))"
  by (induction gs) simp_all

lemma mset_fold_place:
  "mset (concat (map snd (foldl (\<lambda>gs p. place tol (f p) gs) gs ps))) =
     mset (map (\<lambda>p. fst (f p)) ps) + mset (concat (map snd gs))"
  by (induction ps arbitrary: gs) (simp_all add: mset_place)

lemma mset_concat_cong: "mset xss = mset yss \<Longrightarrow> mset (concat xss) = mset (concat yss)"
  by (metis mset_concat mset_map sum_mset_sum_list)

lemma mset_concat_sort:
  "mset (concat (map snd (sort_key f gs))) = mset (concat (map snd gs))"
  by (rule mset_concat_cong) simp

lemma place_nonempty:
  "\<forall>g\<in>set gs. snd g \<noteq> [] \<Longrightarrow> \<forall>g\<in>set (place tol bl gs). snd g \<noteq> []"
  by (induction gs) simp_all

lemma fold_place_nonempty:
  "\<forall>g\<in>set gs. snd g \<noteq> [] \<Longrightarrow>
     \<forall>g\<in>set (foldl (\<lambda>gs p. place tol (f p) gs) gs ps). snd g \<noteq> []"
proof (induction ps arbitrary: gs)
  case Nil
  then show ?case by simp
next
  case (Cons p ps)
  from Cons.prems have "\<forall>g\<in>set (place tol (f p) gs). snd g \<noteq> []"
    by (rule place_nonempty)
  from Cons.IH [OF this] show ?case by simp
qed

lemma unordered_orient: "unordered (fst (orient p)) = unordered (fst (fst p), fst (snd p))"
  by (auto simp: orient_def unordered_def Let_def min_def max_def)

lemma unordered_alt: "unordered (a, b) = (if a \<le> b then (a, b) else (b, a))"
  by (simp add: unordered_def min_def max_def)

lemma all_pairs_map: "all_pairs (map f xs) = map (\<lambda>p. (f (fst p), f (snd p))) (all_pairs xs)"
  by (induction xs) simp_all

lemma set_all_pairs_subset: "p \<in> set (all_pairs xs) \<Longrightarrow> fst p \<in> set xs \<and> snd p \<in> set xs"
  by (induction xs) auto

lemma unordered_Pair_image:
  assumes "k \<notin> set ks"
  shows "unordered ` Pair k ` set ks =
      {(i, j). (i = k \<and> j \<in> set ks \<or> j = k \<and> i \<in> set ks) \<and> i < j}" (is "?L = ?R")
proof
  show "?L \<subseteq> ?R"
    using assms by (auto simp: unordered_alt less_le split: if_splits)
  show "?R \<subseteq> ?L"
  proof
    fix p assume "p \<in> ?R"
    then obtain i j where p: "p = (i, j)" "i < j"
      and c: "i = k \<and> j \<in> set ks \<or> j = k \<and> i \<in> set ks"
      by auto
    from c show "p \<in> ?L"
    proof
      assume "i = k \<and> j \<in> set ks"
      then have "unordered (k, j) = p" "j \<in> set ks" using p by (simp_all add: unordered_alt)
      then show ?thesis by (metis image_eqI)
    next
      assume "j = k \<and> i \<in> set ks"
      then have "unordered (k, i) = p" "i \<in> set ks" using p by (simp_all add: unordered_alt)
      then show ?thesis by (metis image_eqI)
    qed
  qed
qed

lemma set_unordered_all_pairs:
  "distinct ks \<Longrightarrow>
     set (map unordered (all_pairs ks)) = {(i, j). i \<in> set ks \<and> j \<in> set ks \<and> i < j}"
proof (induction ks)
  case Nil
  then show ?case by simp
next
  case (Cons k ks)
  then have k: "k \<notin> set ks" and d: "distinct ks" by simp_all
  have a: "set (map unordered (all_pairs (k # ks))) =
      unordered ` Pair k ` set ks \<union> set (map unordered (all_pairs ks))"
    by (simp add: image_Un image_image)
  show ?case
    unfolding a Cons.IH [OF d] unordered_Pair_image [OF k] by auto
qed

lemma distinct_unordered_all_pairs:
  "distinct ks \<Longrightarrow> distinct (map unordered (all_pairs ks))"
proof (induction ks)
  case Nil
  then show ?case by simp
next
  case (Cons k ks)
  then have k: "k \<notin> set ks" and d: "distinct ks" by simp_all
  have "inj_on unordered (Pair k ` set ks)"
    using k by (auto simp: inj_on_def unordered_alt split: if_splits)
  then have 1: "distinct (map unordered (map (Pair k) ks))"
    using d by (simp add: distinct_map inj_on_def)
  have 2: "set (map unordered (map (Pair k) ks)) \<inter> set (map unordered (all_pairs ks)) = {}"
  proof -
    have "unordered q \<noteq> unordered (k, y)" if "y \<in> set ks" "q \<in> set (all_pairs ks)" for y q
      using that k set_all_pairs_subset [OF that(2)]
      by (cases q) (auto simp: unordered_alt split: if_splits)
    then show ?thesis by auto
  qed
  from 1 2 Cons.IH [OF d] show ?case by simp
qed

subsection \<open>The groups partition the antenna pairs\<close>

text \<open>
  Claim C4. For antenna positions given as a mapping (the antennas of the entries are
  distinct), the groups of \<^verbatim>\<open>get_pos_reds\<close> partition the pairs of distinct
  antennas: read without their orientation, the pairs of all the groups together are
  pairwise different (no pair is in two groups, nor twice in one), they are exactly the
  pairs \<open>i < j\<close> of antennas of the layout (none is omitted and no self-pair occurs), and
  no group is empty.
\<close>

theorem get_pos_reds_partition:
  assumes "distinct (map fst antpos)"
  shows "distinct (map unordered (concat (get_pos_reds antpos tol))) \<and>
         set (map unordered (concat (get_pos_reds antpos tol))) =
           {(i, j). i \<in> fst ` set antpos \<and> j \<in> fst ` set antpos \<and> i < j} \<and>
         [] \<notin> set (get_pos_reds antpos tol)"
proof -
  let ?gs = "foldl (\<lambda>gs p. place tol (orient p) gs) [] (all_pairs antpos)"
  have "mset (concat (get_pos_reds antpos tol)) = mset (map (\<lambda>p. fst (orient p)) (all_pairs antpos))"
    by (simp add: get_pos_reds_def mset_concat_sort mset_fold_place del: mset_map)
  then have "mset (map unordered (concat (get_pos_reds antpos tol))) =
        mset (map unordered (map (\<lambda>p. fst (orient p)) (all_pairs antpos)))"
    by (metis mset_map)
  also have "map unordered (map (\<lambda>p. fst (orient p)) (all_pairs antpos)) =
        map unordered (all_pairs (map fst antpos))"
    by (simp add: all_pairs_map unordered_orient o_def)
  finally have m: "mset (map unordered (concat (get_pos_reds antpos tol))) =
        mset (map unordered (all_pairs (map fst antpos)))" .
  have 1: "distinct (map unordered (concat (get_pos_reds antpos tol)))"
    using mset_eq_imp_distinct_iff [OF m] distinct_unordered_all_pairs [OF assms] by simp
  have 2: "set (map unordered (concat (get_pos_reds antpos tol))) =
           {(i, j). i \<in> fst ` set antpos \<and> j \<in> fst ` set antpos \<and> i < j}"
    using mset_eq_setD [OF m] set_unordered_all_pairs [OF assms] by simp
  have "\<forall>g\<in>set ?gs. snd g \<noteq> []"
    by (rule fold_place_nonempty) simp
  then have 3: "[] \<notin> set (get_pos_reds antpos tol)"
    by (auto simp: get_pos_reds_def)
  from 1 2 3 show ?thesis by blast
qed

theorem get_pos_reds_partition_witness:
  "distinct (map fst [(0, (0, 0, 0)), (1, (20, 0, 0)), (2::nat, (10::real, 0::real, 0::real))]) \<and>
   get_pos_reds [(0, (0, 0, 0)), (1, (20, 0, 0)), (2, (10, 0, 0))] 1 = [[(0, 2), (2, 1)], [(0, 1)]] \<and>
   distinct (map unordered (concat [[(0, 2), (2, 1)], [(0, 1)]])) \<and>
   set (map unordered (concat [[(0, 2), (2, 1)], [(0, 1)]])) = {(0, 1), (0, 2), (1, 2)}"
proof -
  have d: "distinct (map fst [(0, (0, 0, 0)), (1, (20, 0, 0)), (2::nat, (10::real, 0::real, 0::real))])"
    by simp
  have e: "get_pos_reds [(0, (0, 0, 0)), (1, (20, 0, 0)), (2, (10, 0, 0))] 1 = [[(0, 2), (2, 1)], [(0, 1)]]"
    by (simp add: get_pos_reds_def orient_def canonical_def vsub_def vneg_def close_to_def sqnorm_def)
  have s: "{(i, j). i \<in> fst ` set [(0, (0, 0, 0)), (1, (20, 0, 0)), (2::nat, (10::real, 0::real, 0::real))] \<and>
      j \<in> fst ` set [(0, (0, 0, 0)), (1, (20, 0, 0)), (2::nat, (10::real, 0::real, 0::real))] \<and> i < j}
      = {(0, 1), (0, 2), (1, 2)}"
    by auto
  note t = get_pos_reds_partition [OF d, of 1, unfolded e s]
  from d e t show ?thesis
    by blast
qed

section \<open>Verification of the equation builder\<close>

subsection \<open>The key of an equation determines the equation\<close>

declare dec.simps [simp del]

lemma digit_char_in_digits: "d < 10 \<Longrightarrow> digit_char d \<in> set digits"
proof -
  assume "d < 10"
  then have "d < length digits" by (simp add: digits_def)
  then show ?thesis unfolding digit_char_def by (rule nth_mem)
qed

lemma digit_char_inj: "a < 10 \<Longrightarrow> b < 10 \<Longrightarrow> digit_char a = digit_char b \<Longrightarrow> a = b"
proof -
  assume a: "a < 10" and b: "b < 10" and e: "digit_char a = digit_char b"
  have "distinct digits" "length digits = 10" by (simp_all add: digits_def)
  with a b e show "a = b"
    by (simp add: digit_char_def nth_eq_iff_index_eq)
qed

lemma dec_digits: "\<forall>c\<in>set (dec n). c \<in> set digits"
proof (induction n rule: dec.induct)
  case (1 n)
  show ?case
  proof (cases "n < 10")
    case True
    then show ?thesis by (subst dec.simps) (simp add: digit_char_in_digits)
  next
    case False
    with 1 show ?thesis by (subst dec.simps) (simp add: digit_char_in_digits)
  qed
qed

lemma dec_nonempty: "dec n \<noteq> []"
  by (subst dec.simps) simp

lemma dec_inj: "dec n = dec m \<Longrightarrow> n = m"
proof (induction n arbitrary: m rule: dec.induct)
  case (1 n)
  show ?case
  proof (cases "n < 10")
    case n: True
    show ?thesis
    proof (cases "m < 10")
      case True
      with n "1.prems" show ?thesis
        by (simp add: dec.simps [of n] dec.simps [of m] digit_char_inj)
    next
      case False
      with n "1.prems" dec_nonempty [of "m div 10"] show ?thesis
        by (simp add: dec.simps [of n] dec.simps [of m] Cons_eq_append_conv)
    qed
  next
    case n: False
    show ?thesis
    proof (cases "m < 10")
      case True
      with n "1.prems" dec_nonempty [of "n div 10"] show ?thesis
        by (simp add: dec.simps [of n] dec.simps [of m] append_eq_Cons_conv)
    next
      case False
      with n "1.prems" have "dec (n div 10) = dec (m div 10)"
        and d: "digit_char (n mod 10) = digit_char (m mod 10)"
        by (simp_all add: dec.simps [of n] dec.simps [of m])
      with "1.IH" [OF n] have "n div 10 = m div 10" by simp
      moreover from d have "n mod 10 = m mod 10" by (simp add: digit_char_inj)
      ultimately show ?thesis by (metis div_mult_mod_eq)
    qed
  qed
qed

lemma split_at_nondigit:
  assumes "\<forall>c\<in>set a. c \<in> set digits" "\<forall>c\<in>set a'. c \<in> set digits" "s \<notin> set digits"
    and "a @ s # r = a' @ s # r'"
  shows "a = a' \<and> r = r'"
  using assms
proof (induction a arbitrary: a')
  case Nil
  then show ?case by (cases a') auto
next
  case (Cons x a)
  then show ?case by (cases a') auto
qed

lemma dec_field:
  assumes "dec n @ CHR ''_'' # r = dec m @ CHR ''_'' # r'"
  shows "n = m \<and> r = r'"
proof -
  have "CHR ''_'' \<notin> set digits" by (simp add: digits_def)
  from split_at_nondigit [OF dec_digits dec_digits this assms] show ?thesis
    by (simp add: dec_inj)
qed

lemma pol_str_inj: "pol_str p = pol_str q \<Longrightarrow> p = q"
  by (simp add: pol_str_def prod_eq_iff)

lemma eq_key_inj:
  assumes k: "eq_key e = eq_key e'"
    and l1: "length (snd (fst e)) = length (snd (fst e'))"
    and l2: "length (snd (fst (snd e))) = length (snd (fst (snd e')))"
  shows "e = e'"
proof -
  obtain i fi j fj u p where e: "e = ((i, fi), (j, fj), (u, p))"
    by (metis prod.collapse)
  obtain i' fi' j' fj' u' p' where e': "e' = ((i', fi'), (j', fj'), (u', p'))"
    by (metis prod.collapse)
  from k have "dec i @ CHR ''_'' # (fi @ '' * g_'' @ dec j @ ''_'' @ fj @ ''_ * u_'' @ dec u @ ''_'' @ pol_str p)
      = dec i' @ CHR ''_'' # (fi' @ '' * g_'' @ dec j' @ ''_'' @ fj' @ ''_ * u_'' @ dec u' @ ''_'' @ pol_str p')"
    by (simp add: eq_key_def e e')
  from dec_field [OF this] have i: "i = i'"
    and r1: "fi @ '' * g_'' @ dec j @ ''_'' @ fj @ ''_ * u_'' @ dec u @ ''_'' @ pol_str p
      = fi' @ '' * g_'' @ dec j' @ ''_'' @ fj' @ ''_ * u_'' @ dec u' @ ''_'' @ pol_str p'"
    by simp_all
  from r1 l1 have fi: "fi = fi'"
    and "dec j @ CHR ''_'' # (fj @ ''_ * u_'' @ dec u @ ''_'' @ pol_str p)
      = dec j' @ CHR ''_'' # (fj' @ ''_ * u_'' @ dec u' @ ''_'' @ pol_str p')"
    by (simp_all add: e e')
  from dec_field [OF this(2)] have j: "j = j'"
    and r2: "fj @ ''_ * u_'' @ dec u @ ''_'' @ pol_str p = fj' @ ''_ * u_'' @ dec u' @ ''_'' @ pol_str p'"
    by simp_all
  from r2 l2 have fj: "fj = fj'"
    and "dec u @ CHR ''_'' # pol_str p = dec u' @ CHR ''_'' # pol_str p'"
    by (simp_all add: e e')
  from dec_field [OF this(2)] have "u = u'" "p = p'"
    by (simp_all add: pol_str_inj)
  with i fi j fj show ?thesis by (simp add: e e')
qed


subsection \<open>Equations of a list of groups\<close>

lemma feed_inj: "feed c = feed c' \<Longrightarrow> c = c'"
  by (simp add: feed_def)

lemma eqn_of_inj: "eqn_of k p0 b = eqn_of k' p0' b' \<Longrightarrow> k = k' \<and> p0 = p0' \<and> b = b'"
  by (auto simp: eqn_of_def split_pol_def prod_eq_iff dest: feed_inj)

lemma eqn_of_feeds:
  "length (snd (fst (eqn_of k p0 b))) = 3" "length (snd (fst (snd (eqn_of k p0 b)))) = 3"
  by (simp_all add: eqn_of_def split_pol_def feed_def)

lemma build_eqns_alt:
  "build_eqns reds bls_and_pols = concat (map (group_eqns bls_and_pols) (enumerate 0 reds))"
  by (simp add: build_eqns_def)

lemma in_eqns_from:
  "x \<in> set (concat (map (group_eqns d) (enumerate n reds))) \<longleftrightarrow>
     (\<exists>k b. n \<le> k \<and> k < n + length reds \<and> b \<in> set (reds ! (k - n)) \<and> b \<in> set d \<and>
        x = (eqn_of k (snd (snd (hd (reds ! (k - n))))) b, b))"
  by (force simp: group_eqns_def in_set_enumerate_eq image_iff add.commute)

lemma distinct_eqns_from:
  "\<forall>g\<in>set reds. distinct g \<Longrightarrow>
     distinct (map fst (concat (map (group_eqns d) (enumerate n reds))))"
proof (induction reds arbitrary: n)
  case Nil
  then show ?case by simp
next
  case (Cons g gs)
  have 1: "distinct (map fst (group_eqns d (n, g)))"
    using Cons.prems
    by (auto simp: group_eqns_def distinct_map o_def inj_on_def dest: eqn_of_inj)
  have 2: "distinct (map fst (concat (map (group_eqns d) (enumerate (Suc n) gs))))"
    using Cons.prems by (intro Cons.IH) simp
  have 3: "fst x \<noteq> fst y"
    if "x \<in> set (group_eqns d (n, g))" "y \<in> set (concat (map (group_eqns d) (enumerate (Suc n) gs)))"
    for x y
  proof -
    from that(1) obtain b where "fst x = eqn_of n (snd (snd (hd g))) b"
      by (auto simp: group_eqns_def)
    moreover from that(2) obtain k b' where "Suc n \<le> k"
      "y = (eqn_of k (snd (snd (hd (gs ! (k - Suc n))))) b', b')"
      unfolding in_eqns_from by blast
    ultimately show ?thesis by (auto dest: eqn_of_inj)
  qed
  have 4: "set (map fst (group_eqns d (n, g))) \<inter>
      set (map fst (concat (map (group_eqns d) (enumerate (Suc n) gs)))) = {}"
    using 3 unfolding set_map by blast
  have "map fst (concat (map (group_eqns d) (enumerate n (g # gs)))) =
      map fst (group_eqns d (n, g)) @ map fst (concat (map (group_eqns d) (enumerate (Suc n) gs)))"
    by simp
  then show ?case
    unfolding distinct_append using 1 2 4 by (simp only: distinct_append simp_thms)
qed

lemma fst_build_eqns:
  assumes "x \<in> set (map fst (build_eqns reds d))"
  shows "\<exists>k p0 b. x = eqn_of k p0 b"
proof -
  from assms obtain b where "(x, b) \<in> set (build_eqns reds d)" by auto
  then show ?thesis unfolding build_eqns_alt in_eqns_from by blast
qed

lemma distinct_build_eqs:
  assumes "\<forall>g\<in>set reds. distinct g"
  shows "distinct (map fst (build_eqs reds d))"
proof -
  have e: "map fst (build_eqs reds d) = map eq_key (map fst (build_eqns reds d))"
    by (simp add: build_eqs_def case_prod_beta o_def)
  have "inj_on eq_key (set (map fst (build_eqns reds d)))"
  proof (rule inj_onI)
    fix x y
    assume "x \<in> set (map fst (build_eqns reds d))" "y \<in> set (map fst (build_eqns reds d))"
      and k: "eq_key x = eq_key y"
    then obtain k p0 b k' p0' b' where "x = eqn_of k p0 b" "y = eqn_of k' p0' b'"
      by (meson fst_build_eqns)
    with k show "x = y"
      by (intro eq_key_inj) (simp_all add: eqn_of_feeds)
  qed
  moreover have "distinct (map fst (build_eqns reds d))"
    unfolding build_eqns_alt using assms by (rule distinct_eqns_from)
  ultimately show ?thesis
    unfolding e distinct_map [of eq_key] by blast
qed

lemma in_build_eqns:
  assumes "k < length reds" "b \<in> set (reds ! k)" "b \<in> set d"
  shows "(eqn_of k (snd (snd (hd (reds ! k)))) b, b) \<in> set (build_eqns reds d)"
  unfolding build_eqns_alt in_eqns_from using assms
  by (intro exI [of _ k] exI [of _ b]) simp

lemma distinct_with_pol: "distinct bls \<Longrightarrow> distinct (with_pol ex p bls)"
  by (simp add: with_pol_def distinct_map inj_on_def prod_eq_iff)

lemma pol_of_with_pol: "b \<in> set (with_pol ex p bls) \<Longrightarrow> snd (snd b) = p"
  by (auto simp: with_pol_def)

lemma distinct_add_pols:
  "\<forall>g\<in>set reds. distinct g \<Longrightarrow> \<forall>g\<in>set (add_pols reds ex minV merged pols). distinct g"
proof (induction pols arbitrary: merged)
  case Nil
  then show ?case by simp
next
  case (Cons p ps)
  have "distinct (with_pol ex p bls @ with_pol ex (conj_pol p) bls)"
    if "bls \<in> set reds" "fst p \<noteq> snd p" for bls
    using that Cons.prems
    by (auto simp: distinct_with_pol conj_pol_def dest!: pol_of_with_pol)
  with Cons show ?case
    by (auto simp: distinct_with_pol)
qed

lemma merged_group_in_add_pols:
  assumes "q \<in> set pols" "fst q \<noteq> snd q"
  shows "\<exists>q0\<in>set pols. fst q0 \<noteq> snd q0 \<and>
           (\<forall>bls\<in>set reds. with_pol ex q0 bls @ with_pol ex (conj_pol q0) bls
                \<in> set (add_pols reds ex True False pols))"
  using assms
proof (induction pols)
  case Nil
  then show ?case by simp
next
  case (Cons p ps)
  show ?case
  proof (cases "fst p = snd p")
    case True
    with Cons.prems have "q \<in> set ps" by auto
    from Cons.IH [OF this Cons.prems(2)] True show ?thesis by auto
  next
    case False
    then show ?thesis by (intro bexI [of _ p]) auto
  qed
qed

lemma in_with_pol: "b \<in> set bls \<Longrightarrow> \<not> excluded ex b p \<Longrightarrow> (fst b, snd b, p) \<in> set (with_pol ex p bls)"
  by (auto simp: with_pol_def)


lemma conj_pol_conj_pol: "conj_pol (conj_pol p) = p"
  by (simp add: conj_pol_def)

subsection \<open>Both cross-feed orderings share one unknown\<close>

text \<open>
  Claim C6. In the mode \<^verbatim>\<open>4pol_minV\<close>, with a cross-feed polarisation \<open>p\<close> among
  the polarisations (the cross-feed ones being \<open>p\<close> and its conjugate), for a baseline
  \<open>(i, j)\<close> of a positional group that is not excluded and has data for both orderings:
  the builder has an equation for \<open>(i, j, p)\<close> and one for \<open>(i, j, conj_pol p)\<close>, and both
  are over the same unknown \<open>u\<close> (the same group index and polarisation name). When no
  positional group repeats a baseline, the keys of all the equations are pairwise
  different.
\<close>

theorem build_eqs_4pol_minV:
  assumes pols: "p \<in> set pols" "fst p \<noteq> snd p"
      "\<forall>q\<in>set pols. fst q \<noteq> snd q \<longrightarrow> q = p \<or> q = conj_pol p"
    and grp: "bls \<in> set pos_reds" "(i, j) \<in> set bls"
    and ex: "\<not> excluded ex_ants (i, j) p" "\<not> excluded ex_ants (i, j) (conj_pol p)"
    and data: "(i, j, p) \<in> set d" "(i, j, conj_pol p) \<in> set d"
    and dist: "\<forall>g\<in>set pos_reds. distinct g"
  shows "(\<exists>k p0 gi gj gi' gj'.
            ((gi, gj, (k, p0)), (i, j, p))
              \<in> set (build_eqns (add_pol_reds pos_reds pols ''4pol_minV'' ex_ants) d) \<and>
            ((gi', gj', (k, p0)), (i, j, conj_pol p))
              \<in> set (build_eqns (add_pol_reds pos_reds pols ''4pol_minV'' ex_ants) d)) \<and>
         distinct (map fst (build_eqs (add_pol_reds pos_reds pols ''4pol_minV'' ex_ants) d))"
proof -
  let ?reds = "add_pol_reds pos_reds pols ''4pol_minV'' ex_ants"
  have reds: "?reds = add_pols pos_reds ex_ants True False pols"
    by (simp add: add_pol_reds_def)
  from merged_group_in_add_pols [OF pols(1,2)] obtain q0 where
    q0: "q0 \<in> set pols" "fst q0 \<noteq> snd q0"
    and g: "with_pol ex_ants q0 bls @ with_pol ex_ants (conj_pol q0) bls \<in> set ?reds"
    unfolding reds using grp(1) by blast
  let ?g = "with_pol ex_ants q0 bls @ with_pol ex_ants (conj_pol q0) bls"
  from q0 pols(3) have "q0 = p \<or> q0 = conj_pol p" by blast
  then have mem: "(i, j, p) \<in> set ?g" "(i, j, conj_pol p) \<in> set ?g"
    using in_with_pol [OF grp(2) ex(1)] in_with_pol [OF grp(2) ex(2)]
    by (auto simp: conj_pol_conj_pol)
  from g obtain k where k: "k < length ?reds" "?reds ! k = ?g"
    by (auto simp: in_set_conv_nth)
  let ?p0 = "snd (snd (hd (?reds ! k)))"
  have 1: "(eqn_of k ?p0 (i, j, p), (i, j, p)) \<in> set (build_eqns ?reds d)"
    using k mem(1) data(1) by (intro in_build_eqns) simp_all
  have 2: "(eqn_of k ?p0 (i, j, conj_pol p), (i, j, conj_pol p)) \<in> set (build_eqns ?reds d)"
    using k mem(2) data(2) by (intro in_build_eqns) simp_all
  have "\<forall>g\<in>set ?reds. distinct g"
    unfolding reds using dist by (rule distinct_add_pols)
  then have 3: "distinct (map fst (build_eqs ?reds d))"
    by (rule distinct_build_eqs)
  from 1 2 have "\<exists>k p0 gi gj gi' gj'.
      ((gi, gj, (k, p0)), (i, j, p)) \<in> set (build_eqns ?reds d) \<and>
      ((gi', gj', (k, p0)), (i, j, conj_pol p)) \<in> set (build_eqns ?reds d)"
    unfolding eqn_of_def by blast
  with 3 show ?thesis by blast
qed

lemma example_build_eqs:
  "build_eqs (add_pol_reds [[(0, 1), (1, 2)], [(0, 2)]] [xx, yy, xy, yx] ''4pol_minV'' [])
     [(0, 1, xy), (0, 1, yx)] =
   [(''g_0_Jxx * g_1_Jyy_ * u_4_xy'', (0, 1, xy)), (''g_0_Jyy * g_1_Jxx_ * u_4_xy'', (0, 1, yx))]"
  by (simp add: build_eqs_def build_eqns_def group_eqns_def add_pol_reds_def with_pol_def excluded_def
      eqn_of_def eq_key_def split_pol_def feed_def pol_str_def conj_pol_def xx_def yy_def xy_def yx_def
      dec.simps digit_char_def digits_def)

theorem build_eqs_4pol_minV_witness:
  "(\<exists>k p0 gi gj gi' gj'.
      ((gi, gj, (k, p0)), (0, 1, xy))
        \<in> set (build_eqns (add_pol_reds [[(0, 1), (1, 2)], [(0, 2)]] [xx, yy, xy, yx] ''4pol_minV'' [])
             [(0, 1, xy), (0, 1, yx)]) \<and>
      ((gi', gj', (k, p0)), (0, 1, yx))
        \<in> set (build_eqns (add_pol_reds [[(0, 1), (1, 2)], [(0, 2)]] [xx, yy, xy, yx] ''4pol_minV'' [])
             [(0, 1, xy), (0, 1, yx)])) \<and>
   distinct (map fst (build_eqs
     (add_pol_reds [[(0, 1), (1, 2)], [(0, 2)]] [xx, yy, xy, yx] ''4pol_minV'' [])
     [(0, 1, xy), (0, 1, yx)]))"
proof -
  have c: "conj_pol xy = yx"
    by (simp add: conj_pol_def xy_def yx_def)
  have "(\<exists>k p0 gi gj gi' gj'.
      ((gi, gj, (k, p0)), (0, 1, xy))
        \<in> set (build_eqns (add_pol_reds [[(0, 1), (1, 2)], [(0, 2)]] [xx, yy, xy, yx] ''4pol_minV'' [])
             [(0, 1, xy), (0, 1, yx)]) \<and>
      ((gi', gj', (k, p0)), (0, 1, conj_pol xy))
        \<in> set (build_eqns (add_pol_reds [[(0, 1), (1, 2)], [(0, 2)]] [xx, yy, xy, yx] ''4pol_minV'' [])
             [(0, 1, xy), (0, 1, yx)])) \<and>
   distinct (map fst (build_eqs
     (add_pol_reds [[(0, 1), (1, 2)], [(0, 2)]] [xx, yy, xy, yx] ''4pol_minV'' [])
     [(0, 1, xy), (0, 1, yx)]))"
    by (rule build_eqs_4pol_minV [where bls = "[(0, 1), (1, 2)]"])
      (simp_all add: excluded_def conj_pol_def xx_def yy_def xy_def yx_def)
  then show ?thesis unfolding c .
qed

end
